theory Spec2Isabelle
  imports Main
begin

section \<open>Values, documents and collaborators\<close>

text \<open>
  The service of \<^verbatim>\<open>src/server.js\<close> has three HTTP handlers over two Firestore
  collections (\<^verbatim>\<open>invite_requests\<close>, \<^verbatim>\<open>invite_lookup\<close>), a Cloud Tasks queue, the
  Telegram Bot API and the WebEngage event API. Each handler is modelled as a function
  from the stored state to a reply and the new state. What the collaborators answer
  (clock readings, the random UUID, the Telegram response, the success of a WebEngage
  call) is an explicit argument of the handler, one field per call site. The handlers
  run one at a time: interleavings of concurrent invocations are not modelled.

  JSON values that the handlers test for truthiness are kept as \<open>jsval\<close>. Numbers
  are integers here (identifiers, counters and seconds), and objects and arrays, which
  the handlers never receive in these fields, are left out.
\<close>

datatype jsval = JUndefined | JNull | JBool bool | JNum int | JStr string

fun truthy :: "jsval \<Rightarrow> bool" where
  "truthy JUndefined = False"
| "truthy JNull = False"
| "truthy (JBool b) = b"
| "truthy (JNum n) = (n \<noteq> 0)"
| "truthy (JStr s) = (s \<noteq> [])"

text \<open>
  \<^verbatim>\<open>String(v)\<close> and the interpolation \<^verbatim>\<open>${v}\<close> of a template string: decimal digits
  for an integer (as JavaScript prints integers below \<^verbatim>\<open>1e21\<close>).
\<close>

fun decimal :: "nat \<Rightarrow> string" where
  "decimal n =
     (if n < 10 then [''0123456789'' ! n]
      else decimal (n div 10) @ [''0123456789'' ! (n mod 10)])"

declare decimal.simps [simp del]

definition show_int :: "int \<Rightarrow> string" where
  "show_int i = (if i < 0 then CHR ''-'' # decimal (nat (- i)) else decimal (nat i))"

fun js_string :: "jsval \<Rightarrow> string" where
  "js_string JUndefined = ''undefined''"
| "js_string JNull = ''null''"
| "js_string (JBool b) = (if b then ''true'' else ''false'')"
| "js_string (JNum n) = show_int n"
| "js_string (JStr s) = s"

datatype status = QUEUED | PROCESSING | DONE | FAILED

type_synonym timestamp = string

text \<open>A document of \<^verbatim>\<open>invite_requests\<close>. The last three fields are absent until written.\<close>

record request =
  requestId :: string
  userId :: jsval
  transactionId :: jsval
  status :: status
  attempts :: int
  createdAt :: timestamp
  updatedAt :: timestamp
  weLinkEventFired :: bool
  joinEventFired :: bool
  inviteLink :: "string option"
  joinedAt :: "timestamp option"
  telegramUserId :: "int option"

text \<open>A document of \<^verbatim>\<open>invite_lookup\<close>, keyed by \<^verbatim>\<open>sha256(inviteLink)\<close>.\<close>

record lookup_entry =
  lk_inviteLink :: string
  lk_requestId :: string
  lk_userId :: jsval
  lk_transactionId :: jsval
  lk_createdAt :: timestamp

text \<open>The fields an \<^verbatim>\<open>update({...})\<close> call of the source may carry.\<close>

datatype doc_field =
    Status status
  | Attempts int
  | UpdatedAt timestamp
  | InviteLink string
  | WeLinkEventFired bool
  | JoinEventFired bool
  | JoinedAt timestamp
  | TelegramUserId int

fun apply_field :: "doc_field \<Rightarrow> request \<Rightarrow> request" where
  "apply_field (Status s) d = d\<lparr>status := s\<rparr>"
| "apply_field (Attempts n) d = d\<lparr>attempts := n\<rparr>"
| "apply_field (UpdatedAt t) d = d\<lparr>updatedAt := t\<rparr>"
| "apply_field (InviteLink l) d = d\<lparr>inviteLink := Some l\<rparr>"
| "apply_field (WeLinkEventFired b) d = d\<lparr>weLinkEventFired := b\<rparr>"
| "apply_field (JoinEventFired b) d = d\<lparr>joinEventFired := b\<rparr>"
| "apply_field (JoinedAt t) d = d\<lparr>joinedAt := Some t\<rparr>"
| "apply_field (TelegramUserId u) d = d\<lparr>telegramUserId := Some u\<rparr>"

fun apply_fields :: "doc_field list \<Rightarrow> request \<Rightarrow> request" where
  "apply_fields [] d = d"
| "apply_fields (f # fs) d = apply_fields fs (apply_field f d)"

text \<open>The calls made to Firestore, in order.\<close>

datatype db_write =
    ReqSet string request
  | ReqUpdate string "doc_field list"
  | LookupSet string lookup_entry

text \<open>
  A task created in the queue: the worker URL and the body \<^verbatim>\<open>{requestId}\<close> are fixed
  by \<^verbatim>\<open>enqueueWorker\<close>, so a task is its request id and its optional schedule time
  (seconds since the epoch).
\<close>

record task =
  task_requestId :: string
  scheduleTime :: "int option"

text \<open>
  The body \<^verbatim>\<open>{userId: String(userId), eventName, eventData}\<close> that
  \<^verbatim>\<open>fireWebEngage\<close> posts; the event data is the object literal of the call site.
\<close>

record we_event =
  ev_userId :: string
  ev_name :: string
  ev_data :: "(string \<times> jsval) list"

record world =
  invite_requests :: "string \<rightharpoonup> request"
  invite_lookup :: "string \<rightharpoonup> lookup_entry"
  writes :: "db_write list"
  tasks :: "task list"
  tg_calls :: "string list"
  events :: "we_event list"

definition empty_world :: world where
  "empty_world = \<lparr>invite_requests = Map.empty, invite_lookup = Map.empty,
     writes = [], tasks = [], tg_calls = [], events = []\<rparr>"

text \<open>
  What a handler answers: \<^verbatim>\<open>res.status(c).send(s)\<close>, \<^verbatim>\<open>res.status(c).json(o)\<close>, or
  no answer because an awaited call rejected.
\<close>

datatype reply = Send nat string | SendJson nat "(string \<times> jsval) list" | Threw

definition MAX_ATTEMPTS :: int where
  "MAX_ATTEMPTS = 50"

subsection \<open>Firestore\<close>

text \<open>\<^verbatim>\<open>doc(k).set(d)\<close> creates or replaces the document.\<close>

definition req_set :: "string \<Rightarrow> request \<Rightarrow> world \<Rightarrow> world" where
  "req_set k d w =
     w\<lparr>invite_requests := (invite_requests w)(k \<mapsto> d), writes := writes w @ [ReqSet k d]\<rparr>"

text \<open>\<^verbatim>\<open>doc(k).update(fs)\<close> merges the fields into an existing document and rejects when
  there is none.\<close>

definition req_update :: "string \<Rightarrow> doc_field list \<Rightarrow> world \<Rightarrow> world option" where
  "req_update k fs w =
     (case invite_requests w k of
        None \<Rightarrow> None
      | Some d \<Rightarrow>
          Some (w\<lparr>invite_requests := (invite_requests w)(k \<mapsto> apply_fields fs d),
                  writes := writes w @ [ReqUpdate k fs]\<rparr>))"

definition lookup_set :: "string \<Rightarrow> lookup_entry \<Rightarrow> world \<Rightarrow> world" where
  "lookup_set h l w =
     w\<lparr>invite_lookup := (invite_lookup w)(h \<mapsto> l), writes := writes w @ [LookupSet h l]\<rparr>"

text \<open>Continue with the updated state, or stop without a reply where the call rejected.\<close>

definition or_throw :: "world \<Rightarrow> world option \<Rightarrow> (world \<Rightarrow> reply \<times> world) \<Rightarrow> reply \<times> world" where
  "or_throw w r k = (case r of None \<Rightarrow> (Threw, w) | Some w' \<Rightarrow> k w')"

subsection \<open>Cloud Tasks and WebEngage\<close>

text \<open>
  \<^verbatim>\<open>enqueueWorker(requestId, delaySec = 0)\<close>: the schedule time is set only for a
  positive delay, to \<^verbatim>\<open>Math.floor(Date.now() / 1000) + delaySec\<close>. The first argument
  is the reading of \<^verbatim>\<open>Date.now()\<close> (milliseconds).
\<close>

definition enqueueWorker :: "int \<Rightarrow> string \<Rightarrow> int \<Rightarrow> world \<Rightarrow> world" where
  "enqueueWorker date_now rid delaySec w =
     w\<lparr>tasks := tasks w @
        [\<lparr>task_requestId = rid,
          scheduleTime = (if delaySec > 0 then Some (date_now div 1000 + delaySec) else None)\<rparr>]\<rparr>"

text \<open>The call is recorded; its result \<^verbatim>\<open>res.ok\<close> is a field of the environment.\<close>

definition fireWebEngage ::
  "jsval \<Rightarrow> string \<Rightarrow> (string \<times> jsval) list \<Rightarrow> world \<Rightarrow> world" where
  "fireWebEngage uid eventName eventData w =
     w\<lparr>events := events w @
        [\<lparr>ev_userId = js_string uid, ev_name = eventName, ev_data = eventData\<rparr>]\<rparr>"

subsection \<open>Telegram\<close>

text \<open>
  \<^verbatim>\<open>createTelegramLink(name)\<close> posts \<^verbatim>\<open>{chat_id, member_limit: 1, name}\<close>; the call is
  recorded by its name, and the answer is a field of the environment.
\<close>

definition createTelegramLink :: "string \<Rightarrow> world \<Rightarrow> world" where
  "createTelegramLink name w = w\<lparr>tg_calls := tg_calls w @ [name]\<rparr>"

section \<open>Handler 1: POST /v1/invite/request\<close>

record request_body =
  body_userId :: jsval
  body_transactionId :: jsval

record request_env =
  uuid :: string
  rq_now_created :: timestamp
  rq_now_updated :: timestamp
  rq_date_now :: int

definition invite_request :: "request_env \<Rightarrow> request_body \<Rightarrow> world \<Rightarrow> reply \<times> world" where
  "invite_request e b w =
     (let uid = body_userId b;
          txn = (if body_transactionId b = JUndefined then JStr [] else body_transactionId b)
      in if \<not> truthy uid then (SendJson 400 [(''error'', JStr ''Missing userId'')], w)
         else
           let rid = uuid e;
               w1 = req_set rid
                      \<lparr>requestId = rid, userId = uid, transactionId = txn, status = QUEUED,
                       attempts = 0, createdAt = rq_now_created e, updatedAt = rq_now_updated e,
                       weLinkEventFired = False, joinEventFired = False,
                       inviteLink = None, joinedAt = None, telegramUserId = None\<rparr> w;
               w2 = enqueueWorker (rq_date_now e) rid 0 w1
           in (SendJson 200 [(''ok'', JBool True), (''status'', JStr ''queued''),
                             (''requestId'', JStr rid)], w2))"

section \<open>Handler 2: POST /v1/invite/worker\<close>

text \<open>
  The Telegram answer \<^verbatim>\<open>{ok: res.ok, json}\<close>, with the two paths the worker reads:
  \<^verbatim>\<open>json.parameters.retry_after\<close> (an integer number of seconds in the Bot API) and
  \<^verbatim>\<open>json.result.invite_link\<close>.
\<close>

record tg_response =
  tg_ok :: bool
  retry_after :: "int option"
  invite_link :: "string option"

record worker_req =
  has_queue_header :: bool
  body_requestId :: "string option"

record worker_env =
  now_failed :: timestamp
  now_processing :: timestamp
  tg :: tg_response
  date_now :: int
  now_lookup :: timestamp
  now_done :: timestamp
  link_event_ok :: bool

text \<open>\<^verbatim>\<open>Number(tg.json?.parameters?.retry_after) || 10\<close>: an absent hint is NaN, and NaN
  and 0 are falsy.\<close>

definition retryAfter :: "int option \<Rightarrow> int" where
  "retryAfter h = (case h of None \<Rightarrow> 10 | Some n \<Rightarrow> if n = 0 then 10 else n)"

text \<open>
  The label \<^verbatim>\<open>name\<close> is built from the document read at the start and cut to 255
  characters by \<^verbatim>\<open>slice(0, 255)\<close>. The success path writes \<^verbatim>\<open>inviteLink\<close> into
  both collections; Firestore rejects the value \<^verbatim>\<open>undefined\<close>, which is the branch of
  an absent \<open>invite_link\<close>. The body of the handler after the Telegram call is split
  in two: \<open>worker_retry\<close> is the branch \<^verbatim>\<open>if (!tg.ok)\<close>, \<open>worker_issue\<close> the
  rest.
\<close>

definition link_name :: "request \<Rightarrow> string \<Rightarrow> int \<Rightarrow> string" where
  "link_name doc rid n =
     take 255 (''uid:'' @ js_string (userId doc) @ ''|txn:'' @ js_string (transactionId doc)
               @ ''|rid:'' @ rid @ ''|a:'' @ show_int n)"

definition worker_retry :: "worker_env \<Rightarrow> string \<Rightarrow> world \<Rightarrow> reply \<times> world" where
  "worker_retry e rid w1 =
     (let retryAfter' = retryAfter (retry_after (tg e)) in
      or_throw w1 (req_update rid [Status QUEUED] w1)
        (\<lambda>w2. (Send 200 ''retry scheduled'', enqueueWorker (date_now e) rid retryAfter' w2)))"

definition worker_issue ::
  "(string \<Rightarrow> string) \<Rightarrow> worker_env \<Rightarrow> string \<Rightarrow> request \<Rightarrow> world \<Rightarrow> reply \<times> world" where
  "worker_issue sha256 e rid doc w1 =
     (case invite_link (tg e) of
        None \<Rightarrow> (Threw, w1)
      | Some link \<Rightarrow>
          (let w2 = lookup_set (sha256 link)
                      \<lparr>lk_inviteLink = link, lk_requestId = rid, lk_userId = userId doc,
                       lk_transactionId = transactionId doc, lk_createdAt = now_lookup e\<rparr> w1
           in or_throw w2
                (req_update rid [Status DONE, InviteLink link, UpdatedAt (now_done e)] w2)
                (\<lambda>w3.
                   if \<not> weLinkEventFired doc then
                     (let w4 = fireWebEngage (userId doc)
                                 ''pass_paid_community_telegram_link_created''
                                 [(''transactionId'', transactionId doc),
                                  (''inviteLink'', JStr link)] w3
                      in or_throw w4 (req_update rid [WeLinkEventFired (link_event_ok e)] w4)
                           (\<lambda>w5. (Send 200 ''ok'', w5)))
                   else (Send 200 ''ok'', w3))))"

definition invite_worker ::
  "(string \<Rightarrow> string) \<Rightarrow> worker_env \<Rightarrow> worker_req \<Rightarrow> world \<Rightarrow> reply \<times> world" where
  "invite_worker sha256 e rq w =
     (if \<not> has_queue_header rq then (Send 403 ''Forbidden'', w)
      else
        (case body_requestId rq of
           None \<Rightarrow> (Send 400 ''Missing requestId'', w)
         | Some rid \<Rightarrow>
             if rid = [] then (Send 400 ''Missing requestId'', w)
             else
               (case invite_requests w rid of
                  None \<Rightarrow> (Send 200 ''ok'', w)
                | Some doc \<Rightarrow>
                    if status doc = DONE then (Send 200 ''ok'', w)
                    else
                      (let n = attempts doc + 1 in
                       if n > MAX_ATTEMPTS then
                         or_throw w (req_update rid [Status FAILED, UpdatedAt (now_failed e)] w)
                           (\<lambda>w1. (Send 200 ''ok'', w1))
                       else
                         or_throw w
                           (req_update rid
                              [Status PROCESSING, Attempts n, UpdatedAt (now_processing e)] w)
                           (\<lambda>w1.
                              let w1' = createTelegramLink (link_name doc rid n) w1
                              in if \<not> tg_ok (tg e) then worker_retry e rid w1'
                                 else worker_issue sha256 e rid doc w1')))))"

section \<open>Handler 3: POST /v1/telegram/webhook\<close>

text \<open>The parts of a \<^verbatim>\<open>chat_member\<close> update the handler reads:
  \<^verbatim>\<open>invite_link.invite_link\<close>, \<^verbatim>\<open>new_chat_member.status\<close> and
  \<^verbatim>\<open>new_chat_member.user.id\<close>.\<close>

record member_update =
  upd_invite_link :: "string option"
  upd_status :: "string option"
  upd_user_id :: "int option"

record webhook_body =
  chat_member :: "member_update option"
  my_chat_member :: "member_update option"

record webhook_env =
  join_event_ok :: bool
  now_joined :: timestamp
  now_join_updated :: timestamp

definition recognized_status :: "string option \<Rightarrow> bool" where
  "recognized_status s =
     (case s of None \<Rightarrow> False
      | Some x \<Rightarrow> x \<in> set [''member'', ''administrator'', ''creator''])"

text \<open>\<^verbatim>\<open>const upd = req.body.chat_member || req.body.my_chat_member\<close>\<close>

definition webhook_upd :: "webhook_body \<Rightarrow> member_update option" where
  "webhook_upd b = (case chat_member b of Some u \<Rightarrow> Some u | None \<Rightarrow> my_chat_member b)"

text \<open>
  A missing or empty invite link, a missing or zero user id (both falsy) and a status
  outside the three membership markers all answer \<^verbatim>\<open>ignored\<close>.
\<close>

definition telegram_webhook ::
  "(string \<Rightarrow> string) \<Rightarrow> webhook_env \<Rightarrow> webhook_body \<Rightarrow> world \<Rightarrow> reply \<times> world" where
  "telegram_webhook sha256 e b w =
     (case webhook_upd b of
        None \<Rightarrow> (Send 200 ''ignored'', w)
      | Some upd \<Rightarrow>
          (case (upd_invite_link upd, upd_user_id upd) of
             (Some link, Some tuid) \<Rightarrow>
               if link = [] \<or> tuid = 0 \<or> \<not> recognized_status (upd_status upd)
               then (Send 200 ''ignored'', w)
               else (case invite_lookup w (sha256 link) of
                  None \<Rightarrow> (Send 200 ''orphan'', w)
                | Some l \<Rightarrow>
                    let rid = lk_requestId l in
                    (case invite_requests w rid of
                       None \<Rightarrow> (Send 200 ''ok'', w)
                     | Some reqDoc \<Rightarrow>
                         if joinEventFired reqDoc then (Send 200 ''ok'', w)
                         else
                           let w1 = fireWebEngage (userId reqDoc)
                                      ''pass_paid_community_telegram_joined''
                                      [(''transactionId'', transactionId reqDoc),
                                       (''inviteLink'', JStr link),
                                       (''telegramUserId'', JStr (show_int tuid))] w
                           in or_throw w1
                                (req_update rid
                                   [JoinEventFired (join_event_ok e), JoinedAt (now_joined e),
                                    TelegramUserId tuid, UpdatedAt (now_join_updated e)] w1)
                                (\<lambda>w2. (Send 200 ''ok'', w2))))
           | _ \<Rightarrow> (Send 200 ''ignored'', w)))"

section \<open>Sequences of invocations\<close>

datatype call =
    CallRequest request_env request_body
  | CallWorker worker_env worker_req
  | CallWebhook webhook_env webhook_body

fun exec :: "(string \<Rightarrow> string) \<Rightarrow> call \<Rightarrow> world \<Rightarrow> world" where
  "exec sha256 (CallRequest e b) w = snd (invite_request e b w)"
| "exec sha256 (CallWorker e rq) w = snd (invite_worker sha256 e rq w)"
| "exec sha256 (CallWebhook e b) w = snd (telegram_webhook sha256 e b w)"

fun run :: "(string \<Rightarrow> string) \<Rightarrow> call list \<Rightarrow> world \<Rightarrow> world" where
  "run sha256 [] w = w"
| "run sha256 (c # cs) w = run sha256 cs (exec sha256 c w)"

text \<open>The scheduler delivering worker steps for one request, one environment per step.\<close>

definition step :: "(string \<Rightarrow> string) \<Rightarrow> string \<Rightarrow> worker_env \<Rightarrow> world \<Rightarrow> world" where
  "step sha256 rid e w =
     snd (invite_worker sha256 e \<lparr>has_queue_header = True, body_requestId = Some rid\<rparr> w)"

fun steps :: "(string \<Rightarrow> string) \<Rightarrow> string \<Rightarrow> worker_env list \<Rightarrow> world \<Rightarrow> world" where
  "steps sha256 rid [] w = w"
| "steps sha256 rid (e # es) w = steps sha256 rid es (step sha256 rid e w)"

text \<open>Lists of invocations of one handler, and of worker steps for one request, as calls.\<close>

definition worker_calls :: "(worker_env \<times> worker_req) list \<Rightarrow> call list" where
  "worker_calls ws = map (\<lambda>(e, rq). CallWorker e rq) ws"

definition webhook_calls :: "(webhook_env \<times> webhook_body) list \<Rightarrow> call list" where
  "webhook_calls sigs = map (\<lambda>(e, b). CallWebhook e b) sigs"

definition step_calls :: "string \<Rightarrow> worker_env list \<Rightarrow> call list" where
  "step_calls rid es =
     map (\<lambda>e. CallWorker e \<lparr>has_queue_header = True, body_requestId = Some rid\<rparr>) es"

text \<open>
  The ids \<^verbatim>\<open>crypto.randomUUID()\<close> returned over a list of calls: one for each request
  call that passes the test of \<^verbatim>\<open>userId\<close>, in order.
\<close>

fun generated_ids :: "call list \<Rightarrow> string list" where
  "generated_ids [] = []"
| "generated_ids (CallRequest e b # cs) =
     (if truthy (body_userId b) then uuid e # generated_ids cs else generated_ids cs)"
| "generated_ids (CallWorker e rq # cs) = generated_ids cs"
| "generated_ids (CallWebhook e b # cs) = generated_ids cs"

section \<open>Invariant of the stored requests\<close>

text \<open>
  What every stored request satisfies in every state the handlers can produce from the
  empty store: the counter is at most the ceiling, and \<open>FAILED\<close> is only stored
  once the counter has reached it.
\<close>

definition doc_ok :: "request \<Rightarrow> bool" where
  "doc_ok d = (attempts d \<le> MAX_ATTEMPTS \<and> (status d = FAILED \<longrightarrow> MAX_ATTEMPTS \<le> attempts d))"

definition store_inv :: "world \<Rightarrow> bool" where
  "store_inv w = (\<forall>k d. invite_requests w k = Some d \<longrightarrow> doc_ok d)"

section \<open>Example inputs\<close>

text \<open>
  The scenarios of the specification as concrete inputs. The handlers only apply the
  fingerprint function, so the examples run with a stand-in for \<^verbatim>\<open>sha256\<close>.
\<close>

definition ex_fingerprint :: "string \<Rightarrow> string" where
  "ex_fingerprint s = ''h:'' @ s"

definition ex_request_env :: request_env where
  "ex_request_env =
     \<lparr>uuid = ''r1'', rq_now_created = ''T0'', rq_now_updated = ''T0'', rq_date_now = 1000\<rparr>"

definition ex_request_env2 :: request_env where
  "ex_request_env2 =
     \<lparr>uuid = ''r2'', rq_now_created = ''T6'', rq_now_updated = ''T6'', rq_date_now = 12000\<rparr>"

definition ex_body :: request_body where
  "ex_body = \<lparr>body_userId = JStr ''u1'', body_transactionId = JStr ''txn1''\<rparr>"

definition ex_body_missing :: request_body where
  "ex_body_missing = \<lparr>body_userId = JUndefined, body_transactionId = JStr ''txn1''\<rparr>"

definition ex_doc :: request where
  "ex_doc =
     \<lparr>requestId = ''r1'', userId = JStr ''u1'', transactionId = JStr ''txn1'', status = QUEUED,
      attempts = 0, createdAt = ''T0'', updatedAt = ''T0'',
      weLinkEventFired = False, joinEventFired = False,
      inviteLink = None, joinedAt = None, telegramUserId = None\<rparr>"

definition ex_queued :: world where
  "ex_queued = snd (invite_request ex_request_env ex_body empty_world)"

definition ex_env_limited :: worker_env where
  "ex_env_limited =
     \<lparr>now_failed = ''T1'', now_processing = ''T1'',
      tg = \<lparr>tg_ok = False, retry_after = Some 30, invite_link = None\<rparr>,
      date_now = 5000, now_lookup = ''T2'', now_done = ''T2'', link_event_ok = True\<rparr>"

definition ex_env_issued :: worker_env where
  "ex_env_issued =
     \<lparr>now_failed = ''T3'', now_processing = ''T3'',
      tg = \<lparr>tg_ok = True, retry_after = None, invite_link = Some ''X''\<rparr>,
      date_now = 9000, now_lookup = ''T4'', now_done = ''T4'', link_event_ok = True\<rparr>"

definition ex_done :: world where
  "ex_done = step ex_fingerprint ''r1'' ex_env_issued ex_queued"

definition ex_join :: "string \<Rightarrow> string \<Rightarrow> int \<Rightarrow> webhook_body" where
  "ex_join link marker uid =
     \<lparr>chat_member = Some \<lparr>upd_invite_link = Some link, upd_status = Some marker,
                           upd_user_id = Some uid\<rparr>,
      my_chat_member = None\<rparr>"

definition ex_webhook_env :: "bool \<Rightarrow> webhook_env" where
  "ex_webhook_env ok = \<lparr>join_event_ok = ok, now_joined = ''T5'', now_join_updated = ''T5''\<rparr>"

text \<open>The state after scenario C: the request of \<open>ex_queued\<close> with the link issued.\<close>

definition ex_done_doc :: request where
  "ex_done_doc =
     \<lparr>requestId = ''r1'', userId = JStr ''u1'', transactionId = JStr ''txn1'', status = DONE,
      attempts = 1, createdAt = ''T0'', updatedAt = ''T4'',
      weLinkEventFired = True, joinEventFired = False,
      inviteLink = Some ''X'', joinedAt = None, telegramUserId = None\<rparr>"

definition ex_entry :: lookup_entry where
  "ex_entry =
     \<lparr>lk_inviteLink = ''X'', lk_requestId = ''r1'', lk_userId = JStr ''u1'',
      lk_transactionId = JStr ''txn1'', lk_createdAt = ''T4''\<rparr>"

text \<open>
  Fifty and fifty-one rate-limited worker steps on the request of \<open>ex_queued\<close>; the
  second state is written as the run of the handlers from the empty store that leads to it.
\<close>

definition ex_ceiling :: world where
  "ex_ceiling = steps ex_fingerprint ''r1'' (replicate 50 ex_env_limited) ex_queued"

definition ex_failed :: world where
  "ex_failed =
     run ex_fingerprint
       (CallRequest ex_request_env ex_body # step_calls ''r1'' (replicate 51 ex_env_limited))
       empty_world"

text \<open>
  Join signals on \<open>ex_done\<close>: user 99 with the event refused by WebEngage, then user
  100 on the same link; and user 99 with the event accepted.
\<close>

definition ex_join_unsent :: world where
  "ex_join_unsent =
     snd (telegram_webhook ex_fingerprint (ex_webhook_env False) (ex_join ''X'' ''member'' 99) ex_done)"

definition ex_join_second :: world where
  "ex_join_second =
     snd (telegram_webhook ex_fingerprint (ex_webhook_env True) (ex_join ''X'' ''member'' 100)
            ex_join_unsent)"

definition ex_joined :: world where
  "ex_joined =
     snd (telegram_webhook ex_fingerprint (ex_webhook_env True) (ex_join ''X'' ''member'' 99) ex_done)"

section \<open>Writes that carry the modification time\<close>

text \<open>
  Whether a call to Firestore writes \<^verbatim>\<open>updatedAt\<close>: a \<^verbatim>\<open>set\<close> of a request writes the
  whole document, an \<^verbatim>\<open>update\<close> only the fields it lists. Lookup entries have no such
  field and are not counted against the rule.
\<close>

fun sets_updatedAt :: "doc_field list \<Rightarrow> bool" where
  "sets_updatedAt [] = False"
| "sets_updatedAt (UpdatedAt t # fs) = True"
| "sets_updatedAt (f # fs) = sets_updatedAt fs"

fun refreshes_updatedAt :: "db_write \<Rightarrow> bool" where
  "refreshes_updatedAt (ReqSet k d) = True"
| "refreshes_updatedAt (ReqUpdate k fs) = sets_updatedAt fs"
| "refreshes_updatedAt (LookupSet h l) = True"

section \<open>One worker step, branch by branch\<close>

lemma req_update_Some:
  "invite_requests w k = Some d \<Longrightarrow>
   req_update k fs w =
     Some (w\<lparr>invite_requests := (invite_requests w)(k \<mapsto> apply_fields fs d),
             writes := writes w @ [ReqUpdate k fs]\<rparr>)"
  by (simp add: req_update_def)

lemmas worker_defs =
  invite_worker_def worker_retry_def worker_issue_def or_throw_def lookup_set_def
  fireWebEngage_def createTelegramLink_def enqueueWorker_def step_def Let_def

lemma step_done:
  assumes "invite_requests w rid = Some d" "status d = DONE"
  shows "step H rid e w = w"
  using assms by (simp add: worker_defs)

lemma step_failed:
  assumes "invite_requests w rid = Some d" "rid \<noteq> []" "status d \<noteq> DONE"
    and "MAX_ATTEMPTS < attempts d + 1"
  shows "invite_requests (step H rid e w) =
           (invite_requests w)(rid \<mapsto> d\<lparr>status := FAILED, updatedAt := now_failed e\<rparr>)"
    and "invite_lookup (step H rid e w) = invite_lookup w"
    and "writes (step H rid e w) = writes w @ [ReqUpdate rid [Status FAILED, UpdatedAt (now_failed e)]]"
    and "tasks (step H rid e w) = tasks w"
    and "tg_calls (step H rid e w) = tg_calls w"
    and "events (step H rid e w) = events w"
  using assms by (simp_all add: worker_defs req_update_Some)

lemma step_limited:
  assumes "invite_requests w rid = Some d" "rid \<noteq> []" "status d \<noteq> DONE"
    and "attempts d + 1 \<le> MAX_ATTEMPTS" "\<not> tg_ok (tg e)"
  shows "invite_requests (step H rid e w) =
           (invite_requests w)
             (rid \<mapsto> d\<lparr>attempts := attempts d + 1, updatedAt := now_processing e, status := QUEUED\<rparr>)"
    and "invite_lookup (step H rid e w) = invite_lookup w"
    and "writes (step H rid e w) = writes w @
           [ReqUpdate rid [Status PROCESSING, Attempts (attempts d + 1), UpdatedAt (now_processing e)],
            ReqUpdate rid [Status QUEUED]]"
    and "tasks (step H rid e w) = tasks w @
           [\<lparr>task_requestId = rid,
             scheduleTime = (if 0 < retryAfter (retry_after (tg e))
                             then Some (date_now e div 1000 + retryAfter (retry_after (tg e)))
                             else None)\<rparr>]"
    and "tg_calls (step H rid e w) = tg_calls w @ [link_name d rid (attempts d + 1)]"
    and "events (step H rid e w) = events w"
  using assms by (simp_all add: worker_defs req_update_Some)

lemma step_issued:
  assumes "invite_requests w rid = Some d" "rid \<noteq> []" "status d \<noteq> DONE"
    and "attempts d + 1 \<le> MAX_ATTEMPTS" "tg_ok (tg e)" "invite_link (tg e) = Some link"
  shows "invite_requests (step H rid e w) =
           (invite_requests w)
             (rid \<mapsto> (if weLinkEventFired d
                then d\<lparr>attempts := attempts d + 1, status := DONE,
                      inviteLink := Some link, updatedAt := now_done e\<rparr>
                else d\<lparr>attempts := attempts d + 1, status := DONE,
                      inviteLink := Some link, updatedAt := now_done e,
                      weLinkEventFired := link_event_ok e\<rparr>))"
    and "invite_lookup (step H rid e w) =
           (invite_lookup w)
             (H link \<mapsto> \<lparr>lk_inviteLink = link, lk_requestId = rid, lk_userId = userId d,
                          lk_transactionId = transactionId d, lk_createdAt = now_lookup e\<rparr>)"
    and "writes (step H rid e w) = writes w @
           [ReqUpdate rid [Status PROCESSING, Attempts (attempts d + 1), UpdatedAt (now_processing e)],
            LookupSet (H link) \<lparr>lk_inviteLink = link, lk_requestId = rid, lk_userId = userId d,
                          lk_transactionId = transactionId d, lk_createdAt = now_lookup e\<rparr>,
            ReqUpdate rid [Status DONE, InviteLink link, UpdatedAt (now_done e)]] @
           (if weLinkEventFired d then [] else [ReqUpdate rid [WeLinkEventFired (link_event_ok e)]])"
    and "tasks (step H rid e w) = tasks w"
    and "tg_calls (step H rid e w) = tg_calls w @ [link_name d rid (attempts d + 1)]"
    and "events (step H rid e w) = events w @
           (if weLinkEventFired d then []
            else [\<lparr>ev_userId = js_string (userId d),
                   ev_name = ''pass_paid_community_telegram_link_created'',
                   ev_data = [(''transactionId'', transactionId d), (''inviteLink'', JStr link)]\<rparr>])"
  using assms by (simp_all add: worker_defs req_update_Some)

lemma step_reply_known:
  assumes "invite_requests w rid = Some d" "rid \<noteq> []" 
  shows "fst (invite_worker H e \<lparr>has_queue_header = True, body_requestId = Some rid\<rparr> w) =
     (if status d = DONE \<or> MAX_ATTEMPTS < attempts d + 1 then Send 200 ''ok''
      else if \<not> tg_ok (tg e) then Send 200 ''retry scheduled''
      else if invite_link (tg e) = None then Threw else Send 200 ''ok'')"
  using assms by (auto simp add: worker_defs req_update_Some split: option.splits)

section \<open>The invariant is kept by every handler\<close>

lemma store_inv_empty: "store_inv empty_world"
  by (simp add: store_inv_def empty_world_def)

lemma store_inv_request: "store_inv w \<Longrightarrow> store_inv (snd (invite_request e b w))"
  by (auto simp add: store_inv_def doc_ok_def invite_request_def req_set_def enqueueWorker_def
      Let_def MAX_ATTEMPTS_def)

lemma store_inv_worker: "store_inv w \<Longrightarrow> store_inv (snd (invite_worker H e rq w))"
  unfolding store_inv_def doc_ok_def
  by (auto simp add: worker_defs req_update_def MAX_ATTEMPTS_def split: option.splits if_splits)

lemma store_inv_webhook: "store_inv w \<Longrightarrow> store_inv (snd (telegram_webhook H e b w))"
  unfolding store_inv_def doc_ok_def
  by (auto simp add: telegram_webhook_def or_throw_def fireWebEngage_def req_update_def Let_def
       split: option.splits if_splits)

lemma store_inv_exec: "store_inv w \<Longrightarrow> store_inv (exec H c w)"
  by (cases c) (simp_all add: store_inv_request store_inv_worker store_inv_webhook)

lemma store_inv_run: "store_inv w \<Longrightarrow> store_inv (run H cs w)"
  by (induction cs arbitrary: w) (simp_all add: store_inv_exec)

section \<open>The example states\<close>

lemmas ex_defs =
  ex_fingerprint_def ex_request_env_def ex_body_def ex_body_missing_def ex_queued_def
  ex_env_limited_def ex_env_issued_def ex_done_def ex_join_def ex_webhook_env_def
  empty_world_def invite_request_def req_set_def req_update_def Let_def

lemma ex_queued_fields:
  "invite_requests ex_queued = [''r1'' \<mapsto> ex_doc]"
  "tg_calls ex_queued = []"
  "invite_lookup ex_queued = Map.empty"
  "writes ex_queued = [ReqSet ''r1'' ex_doc]"
  "tasks ex_queued = [\<lparr>task_requestId = ''r1'', scheduleTime = None\<rparr>]"
  "events ex_queued = []"
  by (simp_all add: ex_defs ex_doc_def enqueueWorker_def)

lemma ex_doc_fields:
  "status ex_doc = QUEUED" "attempts ex_doc = 0" "\<not> weLinkEventFired ex_doc"
  "\<not> joinEventFired ex_doc" "userId ex_doc = JStr ''u1''" "transactionId ex_doc = JStr ''txn1''"
  by (simp_all add: ex_doc_def)

section \<open>The webhook on a valid signal\<close>

lemma webhook_valid:
  assumes "webhook_upd b = Some u" and "upd_invite_link u = Some link" and "link \<noteq> []"
    and "upd_user_id u = Some uid" and "uid \<noteq> 0" and "recognized_status (upd_status u)"
    and "invite_lookup w (H link) = Some l" and "invite_requests w (lk_requestId l) = Some d"
  shows "telegram_webhook H e b w =
     (if joinEventFired d then (Send 200 ''ok'', w)
      else (Send 200 ''ok'',
        w\<lparr>events := events w @
             [\<lparr>ev_userId = js_string (userId d), ev_name = ''pass_paid_community_telegram_joined'',
               ev_data = [(''transactionId'', transactionId d), (''inviteLink'', JStr link),
                          (''telegramUserId'', JStr (show_int uid))]\<rparr>],
          invite_requests := (invite_requests w)
             (lk_requestId l \<mapsto> d\<lparr>joinEventFired := join_event_ok e, joinedAt := Some (now_joined e),
                  telegramUserId := Some uid, updatedAt := now_join_updated e\<rparr>),
          writes := writes w @
             [ReqUpdate (lk_requestId l)
                [JoinEventFired (join_event_ok e), JoinedAt (now_joined e),
                 TelegramUserId uid, UpdatedAt (now_join_updated e)]]\<rparr>))"
  using assms
  by (simp add: telegram_webhook_def or_throw_def fireWebEngage_def Let_def req_update_def)

section \<open>Sequences of worker steps\<close>

lemma steps_append: "steps H rid (xs @ ys) w = steps H rid ys (steps H rid xs w)"
  by (induction xs arbitrary: w) simp_all

lemma run_append: "run H (xs @ ys) w = run H ys (run H xs w)"
  by (induction xs arbitrary: w) simp_all

lemma run_step_calls: "run H (step_calls rid es) w = steps H rid es w"
  by (induction es arbitrary: w) (simp_all add: step_calls_def step_def)

lemma steps_limited_below:
  assumes "rid \<noteq> []" and "\<forall>e \<in> set es. \<not> tg_ok (tg e)"
    and "invite_requests w rid = Some d" and "status d \<noteq> DONE"
    and "attempts d + int (length es) \<le> MAX_ATTEMPTS"
  shows "\<exists>d'. invite_requests (steps H rid es w) rid = Some d'
           \<and> attempts d' = attempts d + int (length es)
           \<and> status d' = (if es = [] then status d else QUEUED)
           \<and> length (tasks (steps H rid es w)) = length (tasks w) + length es
           \<and> length (tg_calls (steps H rid es w)) = length (tg_calls w) + length es"
  using assms
proof (induction es arbitrary: w d)
  case Nil
  then show ?case by simp
next
  case (Cons e es)
  let ?d1 = "d\<lparr>attempts := attempts d + 1, updatedAt := now_processing e, status := QUEUED\<rparr>"
  have lim: "\<not> tg_ok (tg e)" and below: "attempts d + 1 \<le> MAX_ATTEMPTS"
    using Cons.prems by simp_all
  note s = step_limited [OF Cons.prems(3) Cons.prems(1) Cons.prems(4) below lim, of H]
  have d1: "invite_requests (step H rid e w) rid = Some ?d1"
    by (simp add: s)
  have "\<exists>d'. invite_requests (steps H rid es (step H rid e w)) rid = Some d'
           \<and> attempts d' = attempts ?d1 + int (length es)
           \<and> status d' = (if es = [] then status ?d1 else QUEUED)
           \<and> length (tasks (steps H rid es (step H rid e w))) =
               length (tasks (step H rid e w)) + length es
           \<and> length (tg_calls (steps H rid es (step H rid e w))) =
               length (tg_calls (step H rid e w)) + length es"
    using Cons.prems by (intro Cons.IH [OF _ _ d1]) simp_all
  then show ?case by (auto simp add: s)
qed

lemma steps_at_ceiling:
  assumes "rid \<noteq> []" and "invite_requests w rid = Some d" and "status d \<noteq> DONE"
    and "MAX_ATTEMPTS \<le> attempts d" and "es \<noteq> []"
  shows "\<exists>d'. invite_requests (steps H rid es w) rid = Some d'
           \<and> attempts d' = attempts d \<and> status d' = FAILED
           \<and> tasks (steps H rid es w) = tasks w
           \<and> tg_calls (steps H rid es w) = tg_calls w"
  using assms
proof (induction es arbitrary: w d)
  case Nil
  then show ?case by simp
next
  case (Cons e es)
  let ?d1 = "d\<lparr>status := FAILED, updatedAt := now_failed e\<rparr>"
  have over: "MAX_ATTEMPTS < attempts d + 1" using Cons.prems by simp
  note s = step_failed [OF Cons.prems(2) Cons.prems(1) Cons.prems(3) over, of H e]
  have d1: "invite_requests (step H rid e w) rid = Some ?d1" by (simp add: s)
  show ?case
  proof (cases "es = []")
    case True
    then show ?thesis by (simp add: s)
  next
    case False
    have "\<exists>d'. invite_requests (steps H rid es (step H rid e w)) rid = Some d'
           \<and> attempts d' = attempts ?d1 \<and> status d' = FAILED
           \<and> tasks (steps H rid es (step H rid e w)) = tasks (step H rid e w)
           \<and> tg_calls (steps H rid es (step H rid e w)) = tg_calls (step H rid e w)"
      using Cons.prems False by (intro Cons.IH [OF _ d1]) simp_all
    then show ?thesis by (auto simp add: s)
  qed
qed

lemma steps_limited_fresh:
  assumes "rid \<noteq> []" and "\<forall>e \<in> set es. \<not> tg_ok (tg e)"
    and "invite_requests w rid = Some d" and "status d = QUEUED" and "attempts d = 0"
  shows "\<exists>d'. invite_requests (steps H rid es w) rid = Some d'
           \<and> status d' = (if int (length es) \<le> MAX_ATTEMPTS then QUEUED else FAILED)
           \<and> attempts d' = min (int (length es)) MAX_ATTEMPTS
           \<and> length (tasks (steps H rid es w)) =
               length (tasks w) + min (length es) (nat MAX_ATTEMPTS)
           \<and> length (tg_calls (steps H rid es w)) =
               length (tg_calls w) + min (length es) (nat MAX_ATTEMPTS)"
proof (cases "int (length es) \<le> MAX_ATTEMPTS")
  case True
  with steps_limited_below [OF assms(1,2,3), of H] assms(4,5)
  show ?thesis by (auto simp add: min_def)
next
  case False
  let ?xs = "take (nat MAX_ATTEMPTS) es" and ?ys = "drop (nat MAX_ATTEMPTS) es"
  have len: "length ?xs = nat MAX_ATTEMPTS" and ys: "?ys \<noteq> []"
    using False by (simp_all add: MAX_ATTEMPTS_def)
  have lim: "\<forall>e \<in> set ?xs. \<not> tg_ok (tg e)"
    using assms(2) by (meson in_set_takeD)
  have "attempts d + int (length ?xs) \<le> MAX_ATTEMPTS"
    using assms(5) len by (simp add: MAX_ATTEMPTS_def)
  with steps_limited_below [OF assms(1) lim assms(3), of H] assms(4)
  obtain d1 where d1: "invite_requests (steps H rid ?xs w) rid = Some d1"
    and a1: "attempts d1 = attempts d + int (length ?xs)"
    and s1: "status d1 = (if ?xs = [] then status d else QUEUED)"
    and t1: "length (tasks (steps H rid ?xs w)) = length (tasks w) + length ?xs"
    and c1: "length (tg_calls (steps H rid ?xs w)) = length (tg_calls w) + length ?xs"
    by auto
  have nd: "status d1 \<noteq> DONE" using s1 assms(4) by simp
  have ge: "MAX_ATTEMPTS \<le> attempts d1" using a1 assms(5) len by (simp add: MAX_ATTEMPTS_def)
  from steps_at_ceiling [OF assms(1) d1 nd ge ys, of H]
  obtain d2 where "invite_requests (steps H rid ?ys (steps H rid ?xs w)) rid = Some d2"
    and "attempts d2 = attempts d1" and "status d2 = FAILED"
    and "tasks (steps H rid ?ys (steps H rid ?xs w)) = tasks (steps H rid ?xs w)"
    and "tg_calls (steps H rid ?ys (steps H rid ?xs w)) = tg_calls (steps H rid ?xs w)"
    by auto
  moreover have "steps H rid es w = steps H rid ?ys (steps H rid ?xs w)"
    using steps_append [of H rid ?xs ?ys w] by simp
  ultimately show ?thesis
    using False a1 t1 c1 len assms(5) by (auto simp add: min_def MAX_ATTEMPTS_def)
qed

section \<open>The example state after issuance\<close>

lemma ex_done_fields:
  "invite_requests ex_done = [''r1'' \<mapsto> ex_done_doc]"
  "invite_lookup ex_done = [ex_fingerprint ''X'' \<mapsto> ex_entry]"
  "tasks ex_done = [\<lparr>task_requestId = ''r1'', scheduleTime = None\<rparr>]"
  "events ex_done =
     [\<lparr>ev_userId = ''u1'', ev_name = ''pass_paid_community_telegram_link_created'',
       ev_data = [(''transactionId'', JStr ''txn1''), (''inviteLink'', JStr ''X'')]\<rparr>]"
proof -
  have h1: "invite_requests ex_queued ''r1'' = Some ex_doc" by (simp add: ex_queued_fields)
  have h2: "''r1'' \<noteq> []" by simp
  have h3: "status ex_doc \<noteq> DONE" by (simp add: ex_doc_fields)
  have h4: "attempts ex_doc + 1 \<le> MAX_ATTEMPTS" by (simp add: ex_doc_fields MAX_ATTEMPTS_def)
  have h5: "tg_ok (tg ex_env_issued)" by (simp add: ex_env_issued_def)
  have h6: "invite_link (tg ex_env_issued) = Some ''X''" by (simp add: ex_env_issued_def)
  note s = step_issued [OF h1 h2 h3 h4 h5 h6, of ex_fingerprint]
  show "invite_requests ex_done = [''r1'' \<mapsto> ex_done_doc]"
    by (simp add: ex_done_def s ex_queued_fields ex_doc_fields)
      (simp add: ex_doc_def ex_done_doc_def ex_env_issued_def)
  show "invite_lookup ex_done = [ex_fingerprint ''X'' \<mapsto> ex_entry]"
    by (simp add: ex_done_def s ex_queued_fields ex_doc_fields)
      (simp add: ex_entry_def ex_env_issued_def)
  show "tasks ex_done = [\<lparr>task_requestId = ''r1'', scheduleTime = None\<rparr>]"
    by (simp add: ex_done_def s ex_queued_fields)
  show "events ex_done =
     [\<lparr>ev_userId = ''u1'', ev_name = ''pass_paid_community_telegram_link_created'',
       ev_data = [(''transactionId'', JStr ''txn1''), (''inviteLink'', JStr ''X'')]\<rparr>]"
    by (simp add: ex_done_def s ex_queued_fields ex_doc_fields)
qed

lemma ex_join_upd:
  "webhook_upd (ex_join link marker uid) =
     Some \<lparr>upd_invite_link = Some link, upd_status = Some marker, upd_user_id = Some uid\<rparr>"
  by (simp add: webhook_upd_def ex_join_def)

section \<open>Terminal states under worker calls\<close>

lemma worker_keeps_done:
  assumes "invite_requests w rid = Some d" and "status d = DONE"
  shows "invite_requests (snd (invite_worker H e rq w)) rid = Some d"
  using assms
  by (auto simp add: worker_defs req_update_def split: option.splits)

lemma worker_keeps_failed:
  assumes "invite_requests w rid = Some d" and "status d = FAILED" and "MAX_ATTEMPTS \<le> attempts d"
  shows "\<exists>d'. invite_requests (snd (invite_worker H e rq w)) rid = Some d'
           \<and> status d' = FAILED \<and> attempts d' = attempts d"
  using assms
  by (auto simp add: worker_defs req_update_def split: option.splits)

lemma run_workers_keep_done:
  assumes "invite_requests w rid = Some d" and "status d = DONE"
  shows "invite_requests (run H (worker_calls ws) w) rid = Some d"
  using assms
proof (induction ws arbitrary: w)
  case Nil
  then show ?case by (simp add: worker_calls_def)
next
  case (Cons c ws)
  obtain e rq where c: "c = (e, rq)" by (cases c)
  have "invite_requests (snd (invite_worker H e rq w)) rid = Some d"
    using Cons.prems by (rule worker_keeps_done)
  from Cons.IH [OF this Cons.prems(2)] show ?case
    by (simp add: worker_calls_def c)
qed

lemma run_workers_keep_failed:
  assumes "invite_requests w rid = Some d" and "status d = FAILED" and "MAX_ATTEMPTS \<le> attempts d"
  shows "\<exists>d'. invite_requests (run H (worker_calls ws) w) rid = Some d'
           \<and> status d' = FAILED \<and> attempts d' = attempts d"
  using assms
proof (induction ws arbitrary: w d)
  case Nil
  then show ?case by (simp add: worker_calls_def)
next
  case (Cons c ws)
  obtain e rq where c: "c = (e, rq)" by (cases c)
  from worker_keeps_failed [OF Cons.prems, of H e rq]
  obtain d1 where d1: "invite_requests (snd (invite_worker H e rq w)) rid = Some d1"
    and s1: "status d1 = FAILED" and a1: "attempts d1 = attempts d"
    by auto
  have "MAX_ATTEMPTS \<le> attempts d1" using a1 Cons.prems(3) by simp
  from Cons.IH [OF d1 s1 this] a1 show ?case
    by (simp add: worker_calls_def c)
qed

lemma steps_done:
  assumes "invite_requests w rid = Some d" and "status d = DONE"
  shows "steps H rid es w = w"
  using assms by (induction es) (simp_all add: step_done)

lemma reachable_doc_ok:
  assumes "invite_requests (run H cs empty_world) k = Some d"
  shows "doc_ok d"
  using store_inv_run [OF store_inv_empty, of H cs] assms
  by (simp add: store_inv_def)

section \<open>The example states at the ceiling\<close>

lemma ex_limited_all: "\<forall>e \<in> set (replicate n ex_env_limited). \<not> tg_ok (tg e)"
  by (simp add: ex_env_limited_def)

lemma ex_queued_r1: "invite_requests ex_queued ''r1'' = Some ex_doc"
  by (simp add: ex_queued_fields)

lemma ex_ceiling_doc:
  "\<exists>d. invite_requests ex_ceiling ''r1'' = Some d \<and> status d = QUEUED \<and> attempts d = 50"
  using steps_limited_fresh [where H = ex_fingerprint, OF _ ex_limited_all [of 50] ex_queued_r1]
  by (auto simp add: ex_ceiling_def ex_doc_fields MAX_ATTEMPTS_def)

lemma ex_failed_steps:
  "ex_failed = steps ex_fingerprint ''r1'' (replicate 51 ex_env_limited) ex_queued"
  by (simp add: ex_failed_def run_step_calls ex_queued_def)

lemma ex_failed_doc:
  "\<exists>d. invite_requests ex_failed ''r1'' = Some d \<and> status d = FAILED \<and> attempts d = 50"
  using steps_limited_fresh [where H = ex_fingerprint, OF _ ex_limited_all [of 51] ex_queued_r1]
  by (auto simp add: ex_failed_steps ex_doc_fields MAX_ATTEMPTS_def)

section \<open>The join latch under webhook calls\<close>

lemma webhook_keeps_joined:
  assumes "invite_requests w rid = Some d" and "joinEventFired d"
  shows "invite_requests (snd (telegram_webhook H e b w)) rid = Some d"
  using assms
  by (auto simp add: telegram_webhook_def or_throw_def fireWebEngage_def req_update_def Let_def
      split: option.splits)

lemma run_webhooks_keep_joined:
  assumes "invite_requests w rid = Some d" and "joinEventFired d"
  shows "invite_requests (run H (webhook_calls sigs) w) rid = Some d"
  using assms
proof (induction sigs arbitrary: w)
  case Nil
  then show ?case by (simp add: webhook_calls_def)
next
  case (Cons c sigs)
  obtain e b where c: "c = (e, b)" by (cases c)
  have "invite_requests (snd (telegram_webhook H e b w)) rid = Some d"
    using Cons.prems by (rule webhook_keeps_joined)
  from Cons.IH [OF this Cons.prems(2)] show ?case
    by (simp add: webhook_calls_def c)
qed

lemma ex_valid_join:
  assumes "invite_lookup w (ex_fingerprint ''X'') = Some ex_entry"
    and "invite_requests w ''r1'' = Some d" and "\<not> joinEventFired d" and "uid \<noteq> 0"
  shows "invite_requests (snd (telegram_webhook ex_fingerprint e (ex_join ''X'' ''member'' uid) w)) =
           (invite_requests w)
             (''r1'' \<mapsto> d\<lparr>joinEventFired := join_event_ok e, joinedAt := Some (now_joined e),
                          telegramUserId := Some uid, updatedAt := now_join_updated e\<rparr>)"
    and "invite_lookup (snd (telegram_webhook ex_fingerprint e (ex_join ''X'' ''member'' uid) w)) =
           invite_lookup w"
proof -
  let ?u = "\<lparr>upd_invite_link = Some ''X'', upd_status = Some ''member'', upd_user_id = Some uid\<rparr>"
  have h1: "webhook_upd (ex_join ''X'' ''member'' uid) = Some ?u" by (rule ex_join_upd)
  have h2: "upd_invite_link ?u = Some ''X''" and h3: "''X'' \<noteq> []"
    and h4: "upd_user_id ?u = Some uid"
    and h6: "recognized_status (upd_status ?u)"
    by (simp_all add: recognized_status_def)
  have h8: "invite_requests w (lk_requestId ex_entry) = Some d"
    using assms(2) by (simp add: ex_entry_def)
  note v = webhook_valid [where H = ex_fingerprint and e = e, OF h1 h2 h3 h4 assms(4) h6 assms(1) h8]
  show "invite_requests (snd (telegram_webhook ex_fingerprint e (ex_join ''X'' ''member'' uid) w)) =
           (invite_requests w)
             (''r1'' \<mapsto> d\<lparr>joinEventFired := join_event_ok e, joinedAt := Some (now_joined e),
                          telegramUserId := Some uid, updatedAt := now_join_updated e\<rparr>)"
    using assms(3) by (simp add: v ex_entry_def)
  show "invite_lookup (snd (telegram_webhook ex_fingerprint e (ex_join ''X'' ''member'' uid) w)) =
           invite_lookup w"
    using assms(3) by (simp add: v)
qed

lemma ex_join_unsent_fields:
  "invite_requests ex_join_unsent =
     [''r1'' \<mapsto> ex_done_doc\<lparr>joinEventFired := False, joinedAt := Some ''T5'',
                              telegramUserId := Some 99, updatedAt := ''T5''\<rparr>]"
  "invite_lookup ex_join_unsent = [ex_fingerprint ''X'' \<mapsto> ex_entry]"
proof -
  have l: "invite_lookup ex_done (ex_fingerprint ''X'') = Some ex_entry"
    and d: "invite_requests ex_done ''r1'' = Some ex_done_doc"
    and j: "\<not> joinEventFired ex_done_doc"
    by (simp_all add: ex_done_fields ex_done_doc_def)
  note v = ex_valid_join [OF l d j, of 99 "ex_webhook_env False"]
  show "invite_requests ex_join_unsent =
     [''r1'' \<mapsto> ex_done_doc\<lparr>joinEventFired := False, joinedAt := Some ''T5'',
                              telegramUserId := Some 99, updatedAt := ''T5''\<rparr>]"
    by (simp add: ex_join_unsent_def v ex_done_fields) (simp add: ex_webhook_env_def)
  show "invite_lookup ex_join_unsent = [ex_fingerprint ''X'' \<mapsto> ex_entry]"
    by (simp add: ex_join_unsent_def v ex_done_fields)
qed

lemma ex_joined_fields:
  "invite_requests ex_joined =
     [''r1'' \<mapsto> ex_done_doc\<lparr>joinEventFired := True, joinedAt := Some ''T5'',
                              telegramUserId := Some 99, updatedAt := ''T5''\<rparr>]"
proof -
  have l: "invite_lookup ex_done (ex_fingerprint ''X'') = Some ex_entry"
    and d: "invite_requests ex_done ''r1'' = Some ex_done_doc"
    and j: "\<not> joinEventFired ex_done_doc"
    by (simp_all add: ex_done_fields ex_done_doc_def)
  note v = ex_valid_join [OF l d j, of 99 "ex_webhook_env True"]
  show ?thesis
    by (simp add: ex_joined_def v ex_done_fields) (simp add: ex_webhook_env_def)
qed

section \<open>The keys of the request collection\<close>

lemma dom_invite_request:
  "dom (invite_requests (snd (invite_request e b w))) =
     (if truthy (body_userId b) then insert (uuid e) (dom (invite_requests w))
      else dom (invite_requests w))"
  by (simp add: invite_request_def req_set_def enqueueWorker_def Let_def)

lemma dom_invite_worker:
  "dom (invite_requests (snd (invite_worker H e rq w))) = dom (invite_requests w)"
  by (auto simp add: worker_defs req_update_def split: option.splits if_splits)

lemma dom_telegram_webhook:
  "dom (invite_requests (snd (telegram_webhook H e b w))) = dom (invite_requests w)"
  by (auto simp add: telegram_webhook_def or_throw_def fireWebEngage_def req_update_def Let_def
      split: option.splits if_splits)

lemma dom_run:
  "dom (invite_requests (run H cs w)) = dom (invite_requests w) \<union> set (generated_ids cs)"
proof (induction cs arbitrary: w)
  case Nil
  then show ?case by simp
next
  case (Cons c cs)
  show ?case
  proof (cases c)
    case (CallRequest e b)
    then show ?thesis
      by (auto simp add: Cons.IH dom_invite_request simp del: dom_eq_empty_conv)
  next
    case (CallWorker e rq)
    then show ?thesis by (simp add: Cons.IH dom_invite_worker)
  next
    case (CallWebhook e b)
    then show ?thesis by (simp add: Cons.IH dom_telegram_webhook)
  qed
qed

lemma generated_ids_append:
  "generated_ids (xs @ ys) = generated_ids xs @ generated_ids ys"
  by (induction xs rule: generated_ids.induct) simp_all

lemma dom_reachable:
  "dom (invite_requests (run H cs empty_world)) = set (generated_ids cs)"
  by (simp add: dom_run empty_world_def)

section \<open>Creating a request\<close>

text \<open>
  Claim C7. With a user id present (truthy, as \<^verbatim>\<open>if (!userId)\<close> tests it) the handler
  makes exactly one write, the \<^verbatim>\<open>set\<close> of a document with status \<open>QUEUED\<close>,
  \<open>attempts = 0\<close> and both event flags false under the generated id, creates exactly
  one task without a schedule time, changes nothing else and answers
  \<^verbatim>\<open>{ok: true, status: "queued", requestId}\<close>; the specification calls the owner
  \<^verbatim>\<open>ownerId\<close> and the flag \<^verbatim>\<open>accepted\<close>. The id comes from
  \<^verbatim>\<open>crypto.randomUUID()\<close>, and the handler does no test of its own on it. In a state the
  handlers have produced from the empty store with a generator that has not repeated an
  id, the keys of the collection are the ids generated so far, so the id of this call is
  fresh, the document is a new one, the collection grows by exactly that one record and
  every other record is as before. Without a user id the answer is the client error 400
  and the state is unchanged: nothing written, nothing scheduled.
\<close>

theorem C7_invite_request:
  "(truthy (body_userId b) \<longrightarrow>
      (\<exists>d. invite_request e b w =
             (SendJson 200 [(''ok'', JBool True), (''status'', JStr ''queued''),
                            (''requestId'', JStr (uuid e))],
              w\<lparr>invite_requests := (invite_requests w)(uuid e \<mapsto> d),
                writes := writes w @ [ReqSet (uuid e) d],
                tasks := tasks w @ [\<lparr>task_requestId = uuid e, scheduleTime = None\<rparr>]\<rparr>)
           \<and> requestId d = uuid e \<and> userId d = body_userId b
           \<and> status d = QUEUED \<and> attempts d = 0
           \<and> \<not> weLinkEventFired d \<and> \<not> joinEventFired d))
   \<and> (truthy (body_userId b) \<and> w = run H cs empty_world
        \<and> distinct (generated_ids (cs @ [CallRequest e b])) \<longrightarrow>
          uuid e \<notin> set (generated_ids cs)
        \<and> invite_requests w (uuid e) = None
        \<and> dom (invite_requests (snd (invite_request e b w))) =
            insert (uuid e) (dom (invite_requests w))
        \<and> card (dom (invite_requests (snd (invite_request e b w)))) =
            card (dom (invite_requests w)) + 1
        \<and> (\<forall>k. k \<noteq> uuid e \<longrightarrow>
              invite_requests (snd (invite_request e b w)) k = invite_requests w k))
   \<and> (\<not> truthy (body_userId b) \<longrightarrow>
        invite_request e b w = (SendJson 400 [(''error'', JStr ''Missing userId'')], w))"
proof (intro conjI impI)
  assume t: "truthy (body_userId b)"
  show "\<exists>d. invite_request e b w =
             (SendJson 200 [(''ok'', JBool True), (''status'', JStr ''queued''),
                            (''requestId'', JStr (uuid e))],
              w\<lparr>invite_requests := (invite_requests w)(uuid e \<mapsto> d),
                writes := writes w @ [ReqSet (uuid e) d],
                tasks := tasks w @ [\<lparr>task_requestId = uuid e, scheduleTime = None\<rparr>]\<rparr>)
           \<and> requestId d = uuid e \<and> userId d = body_userId b
           \<and> status d = QUEUED \<and> attempts d = 0
           \<and> \<not> weLinkEventFired d \<and> \<not> joinEventFired d"
    unfolding invite_request_def req_set_def enqueueWorker_def Let_def
    by (rule exI, intro conjI, simp add: t, simp_all)
next
  assume "\<not> truthy (body_userId b)"
  then show "invite_request e b w = (SendJson 400 [(''error'', JStr ''Missing userId'')], w)"
    by (simp add: invite_request_def)
next
  assume a: "truthy (body_userId b) \<and> w = run H cs empty_world
        \<and> distinct (generated_ids (cs @ [CallRequest e b]))"
  then have fresh: "uuid e \<notin> set (generated_ids cs)"
    by (auto simp add: generated_ids_append)
  have keys: "dom (invite_requests w) = set (generated_ids cs)"
    using a by (simp add: dom_reachable)
  show "uuid e \<notin> set (generated_ids cs)" by (rule fresh)
  show none: "invite_requests w (uuid e) = None"
    using fresh keys by blast
  show grow: "dom (invite_requests (snd (invite_request e b w))) =
            insert (uuid e) (dom (invite_requests w))"
    using a by (simp add: dom_invite_request)
  have "finite (dom (invite_requests w))" and "uuid e \<notin> dom (invite_requests w)"
    using keys fresh by simp_all
  then show "card (dom (invite_requests (snd (invite_request e b w)))) =
            card (dom (invite_requests w)) + 1"
    by (simp add: grow)
  show "\<forall>k. k \<noteq> uuid e \<longrightarrow>
              invite_requests (snd (invite_request e b w)) k = invite_requests w k"
    using a by (simp add: invite_request_def req_set_def enqueueWorker_def Let_def)
qed

theorem C7_invite_request_witness:
  "truthy (body_userId ex_body)
   \<and> fst (invite_request ex_request_env ex_body empty_world) =
       SendJson 200 [(''ok'', JBool True), (''status'', JStr ''queued''), (''requestId'', JStr ''r1'')]
   \<and> map_option status (invite_requests ex_queued ''r1'') = Some QUEUED
   \<and> tasks ex_queued = [\<lparr>task_requestId = ''r1'', scheduleTime = None\<rparr>]
   \<and> ex_queued = run ex_fingerprint [CallRequest ex_request_env ex_body] empty_world
   \<and> distinct (generated_ids [CallRequest ex_request_env ex_body, CallRequest ex_request_env2 ex_body])
   \<and> invite_requests ex_queued ''r2'' = None
   \<and> dom (invite_requests (snd (invite_request ex_request_env2 ex_body ex_queued))) = {''r1'', ''r2''}
   \<and> card (dom (invite_requests (snd (invite_request ex_request_env2 ex_body ex_queued)))) = 2
   \<and> \<not> truthy (body_userId ex_body_missing)
   \<and> invite_request ex_request_env ex_body_missing empty_world =
       (SendJson 400 [(''error'', JStr ''Missing userId'')], empty_world)"
proof -
  have t: "truthy (body_userId ex_body)" and f: "\<not> truthy (body_userId ex_body_missing)"
    by (simp_all add: ex_body_def ex_body_missing_def)
  have r: "ex_queued = run ex_fingerprint [CallRequest ex_request_env ex_body] empty_world"
    by (simp add: ex_queued_def)
  have u: "uuid ex_request_env = ''r1''" "uuid ex_request_env2 = ''r2''"
    by (simp_all add: ex_request_env_def ex_request_env2_def)
  have d: "distinct (generated_ids
             ([CallRequest ex_request_env ex_body] @ [CallRequest ex_request_env2 ex_body]))"
    using t u by simp
  have k: "dom (invite_requests ex_queued) = {''r1''}" by (simp add: ex_queued_fields)
  note first = C7_invite_request [of ex_body ex_request_env empty_world ex_fingerprint "[]"]
  note second = C7_invite_request [of ex_body ex_request_env2 ex_queued ex_fingerprint
      "[CallRequest ex_request_env ex_body]"]
  note missing = C7_invite_request [of ex_body_missing ex_request_env empty_world ex_fingerprint "[]"]
  have p1: "fst (invite_request ex_request_env ex_body empty_world) =
       SendJson 200 [(''ok'', JBool True), (''status'', JStr ''queued''), (''requestId'', JStr ''r1'')]"
    using first [THEN conjunct1] t u by auto
  have p2: "invite_requests ex_queued ''r2'' = None
     \<and> dom (invite_requests (snd (invite_request ex_request_env2 ex_body ex_queued))) =
         insert ''r2'' (dom (invite_requests ex_queued))
     \<and> card (dom (invite_requests (snd (invite_request ex_request_env2 ex_body ex_queued)))) =
         card (dom (invite_requests ex_queued)) + 1"
  proof -
    have prem: "truthy (body_userId ex_body)
       \<and> ex_queued = run ex_fingerprint [CallRequest ex_request_env ex_body] empty_world
       \<and> distinct (generated_ids
            ([CallRequest ex_request_env ex_body] @ [CallRequest ex_request_env2 ex_body]))"
      using t r d by blast
    from second [THEN conjunct2, THEN conjunct1, THEN mp, OF prem]
    show ?thesis unfolding u by blast
  qed
  have p3: "invite_request ex_request_env ex_body_missing empty_world =
       (SendJson 400 [(''error'', JStr ''Missing userId'')], empty_world)"
    using missing [THEN conjunct2, THEN conjunct2] f by simp
  have p4: "distinct (generated_ids
      [CallRequest ex_request_env ex_body, CallRequest ex_request_env2 ex_body])"
    using d by simp
  show ?thesis
    using t f r p1 p2 p3 p4 k by (simp add: ex_queued_fields ex_doc_fields insert_commute)
qed

section \<open>A rate-limited worker step\<close>

text \<open>
  Claim C4. When Telegram does not answer ok, a worker step on a request below the
  ceiling leaves the status \<open>QUEUED\<close> and the counter at the incremented value,
  and creates exactly one task, scheduled \<^verbatim>\<open>retry_after\<close> seconds after the current
  second for a positive hint and 10 seconds after it when the hint is absent. Scenario
  B is the instance that follows: hint 30 on a fresh request gives \<open>QUEUED\<close>,
  \<open>attempts = 1\<close> and one new task 30 seconds ahead.
\<close>

theorem C4_rate_limited_retry:
  assumes "invite_requests w rid = Some d" and "rid \<noteq> []" and "status d \<noteq> DONE"
    and "attempts d + 1 \<le> MAX_ATTEMPTS" and "\<not> tg_ok (tg e)"
  shows "fst (invite_worker H e \<lparr>has_queue_header = True, body_requestId = Some rid\<rparr> w) =
           Send 200 ''retry scheduled''
    \<and> map_option status (invite_requests (step H rid e w) rid) = Some QUEUED
    \<and> map_option attempts (invite_requests (step H rid e w) rid) = Some (attempts d + 1)
    \<and> (\<forall>h. retry_after (tg e) = Some h \<and> 0 < h \<longrightarrow>
          tasks (step H rid e w) =
            tasks w @ [\<lparr>task_requestId = rid, scheduleTime = Some (date_now e div 1000 + h)\<rparr>])
    \<and> (retry_after (tg e) = None \<longrightarrow>
          tasks (step H rid e w) =
            tasks w @ [\<lparr>task_requestId = rid, scheduleTime = Some (date_now e div 1000 + 10)\<rparr>])"
  using assms
  by (simp add: step_limited step_reply_known retryAfter_def)

theorem C4_rate_limited_retry_witness:
  "invite_requests ex_queued ''r1'' = Some ex_doc
   \<and> \<not> tg_ok (tg ex_env_limited) \<and> retry_after (tg ex_env_limited) = Some 30
   \<and> map_option status (invite_requests (step ex_fingerprint ''r1'' ex_env_limited ex_queued) ''r1'')
       = Some QUEUED
   \<and> map_option attempts (invite_requests (step ex_fingerprint ''r1'' ex_env_limited ex_queued) ''r1'')
       = Some 1
   \<and> tasks (step ex_fingerprint ''r1'' ex_env_limited ex_queued) =
       [\<lparr>task_requestId = ''r1'', scheduleTime = None\<rparr>,
        \<lparr>task_requestId = ''r1'', scheduleTime = Some (5 + 30)\<rparr>]"
proof -
  have h1: "invite_requests ex_queued ''r1'' = Some ex_doc" by (simp add: ex_queued_fields)
  have h2: "''r1'' \<noteq> []" by simp
  have h3: "status ex_doc \<noteq> DONE" by (simp add: ex_doc_fields)
  have h4: "attempts ex_doc + 1 \<le> MAX_ATTEMPTS" by (simp add: ex_doc_fields MAX_ATTEMPTS_def)
  have h5: "\<not> tg_ok (tg ex_env_limited)" by (simp add: ex_env_limited_def)
  have h6: "retry_after (tg ex_env_limited) = Some 30" "date_now ex_env_limited = 5000"
    by (simp_all add: ex_env_limited_def)
  from C4_rate_limited_retry [OF h1 h2 h3 h4 h5, of ex_fingerprint] h1 h5 h6
  show ?thesis by (simp add: ex_doc_fields ex_queued_fields)
qed

section \<open>Issuing a link\<close>

text \<open>
  Claim C6. After a worker step that issues the link \<open>link\<close> for request
  \<open>rid\<close>, the lookup collection read at the fingerprint of \<open>link\<close> holds an
  entry whose \<^verbatim>\<open>requestId\<close> is \<open>rid\<close>, and the request is \<open>DONE\<close>
  with that link.
\<close>

theorem C6_round_trip:
  assumes "invite_requests w rid = Some d" and "rid \<noteq> []" and "status d \<noteq> DONE"
    and "attempts d + 1 \<le> MAX_ATTEMPTS" and "tg_ok (tg e)" and "invite_link (tg e) = Some link"
  shows "map_option lk_requestId (invite_lookup (step H rid e w) (H link)) = Some rid
    \<and> map_option lk_inviteLink (invite_lookup (step H rid e w) (H link)) = Some link
    \<and> map_option status (invite_requests (step H rid e w) rid) = Some DONE
    \<and> map_option inviteLink (invite_requests (step H rid e w) rid) = Some (Some link)"
  using assms by (simp add: step_issued)

theorem C6_round_trip_witness:
  "invite_requests ex_queued ''r1'' = Some ex_doc
   \<and> tg_ok (tg ex_env_issued) \<and> invite_link (tg ex_env_issued) = Some ''X''
   \<and> map_option lk_requestId (invite_lookup ex_done (ex_fingerprint ''X'')) = Some ''r1''
   \<and> map_option status (invite_requests ex_done ''r1'') = Some DONE"
proof -
  have h1: "invite_requests ex_queued ''r1'' = Some ex_doc" by (simp add: ex_queued_fields)
  have h2: "''r1'' \<noteq> []" by simp
  have h3: "status ex_doc \<noteq> DONE" by (simp add: ex_doc_fields)
  have h4: "attempts ex_doc + 1 \<le> MAX_ATTEMPTS" by (simp add: ex_doc_fields MAX_ATTEMPTS_def)
  have h5: "tg_ok (tg ex_env_issued)" by (simp add: ex_env_issued_def)
  have h6: "invite_link (tg ex_env_issued) = Some ''X''" by (simp add: ex_env_issued_def)
  from C6_round_trip [OF h1 h2 h3 h4 h5 h6, of ex_fingerprint] h1 h5 h6
  show ?thesis by (simp add: ex_done_def)
qed

section \<open>The redemption webhook\<close>

text \<open>
  Claim C8. A signal without a member update, without an invite link (absent or empty),
  without a user id (absent or 0) or with a status other than \<^verbatim>\<open>member\<close>,
  \<^verbatim>\<open>administrator\<close>, \<^verbatim>\<open>creator\<close> is answered \<^verbatim>\<open>ignored\<close> and leaves the whole
  state as it was. A valid signal whose link has no entry in the lookup collection is
  answered \<^verbatim>\<open>orphan\<close>, again with the state unchanged.
\<close>

theorem C8_ignored_and_orphan:
  "(webhook_upd b = None \<longrightarrow> telegram_webhook H e b w = (Send 200 ''ignored'', w))
   \<and> (webhook_upd b = Some u
        \<and> (upd_invite_link u = None \<or> upd_invite_link u = Some []
            \<or> upd_user_id u = None \<or> upd_user_id u = Some 0
            \<or> upd_status u \<notin> {Some ''member'', Some ''administrator'', Some ''creator''})
        \<longrightarrow> telegram_webhook H e b w = (Send 200 ''ignored'', w))
   \<and> (webhook_upd b = Some u \<and> upd_invite_link u = Some link \<and> link \<noteq> []
        \<and> upd_user_id u = Some uid \<and> uid \<noteq> 0
        \<and> upd_status u \<in> {Some ''member'', Some ''administrator'', Some ''creator''}
        \<and> invite_lookup w (H link) = None
        \<longrightarrow> telegram_webhook H e b w = (Send 200 ''orphan'', w))"
  by (auto simp add: telegram_webhook_def recognized_status_def split: option.splits)

theorem C8_ignored_and_orphan_witness:
  "webhook_upd (ex_join ''X'' ''left'' 99) \<noteq> None
   \<and> telegram_webhook ex_fingerprint (ex_webhook_env True) (ex_join ''X'' ''left'' 99) ex_done =
       (Send 200 ''ignored'', ex_done)
   \<and> invite_lookup ex_done (ex_fingerprint ''Y'') = None
   \<and> telegram_webhook ex_fingerprint (ex_webhook_env True) (ex_join ''Y'' ''member'' 99) ex_done =
       (Send 200 ''orphan'', ex_done)"
proof -
  let ?u1 = "\<lparr>upd_invite_link = Some ''X'', upd_status = Some ''left'', upd_user_id = Some 99\<rparr>"
  let ?u2 = "\<lparr>upd_invite_link = Some ''Y'', upd_status = Some ''member'', upd_user_id = Some 99\<rparr>"
  have h1: "webhook_upd (ex_join ''X'' ''left'' 99) = Some ?u1"
    and h2: "webhook_upd (ex_join ''Y'' ''member'' 99) = Some ?u2"
    by (simp_all add: webhook_upd_def ex_join_def)
  have h3: "invite_lookup ex_done (ex_fingerprint ''Y'') = None"
    by (simp add: ex_done_def ex_queued_fields ex_doc_fields step_issued [where d = ex_doc and link = "''X''"]
        ex_env_issued_def MAX_ATTEMPTS_def ex_fingerprint_def)
  from C8_ignored_and_orphan [of "ex_join ''X'' ''left'' 99" ex_fingerprint "ex_webhook_env True"
      ex_done ?u1 "''Y''" 99]
    C8_ignored_and_orphan [of "ex_join ''Y'' ''member'' 99" ex_fingerprint "ex_webhook_env True"
      ex_done ?u2 "''Y''" 99] h1 h2 h3
  show ?thesis by simp
qed

text \<open>
  Claim C5. Two identical valid signals for a link whose request has not had its join
  event sent, handled one after the other with WebEngage accepting the event: the first
  call sends exactly one \<^verbatim>\<open>pass_paid_community_telegram_joined\<close> event and leaves
  \<^verbatim>\<open>joinEventFired\<close> true; the second answers \<^verbatim>\<open>ok\<close> and changes nothing, so the
  event list still holds that one event.
\<close>

theorem C5_idempotent_redemption:
  assumes "webhook_upd b = Some u" and "upd_invite_link u = Some link" and "link \<noteq> []"
    and "upd_user_id u = Some uid" and "uid \<noteq> 0"
    and "upd_status u \<in> {Some ''member'', Some ''administrator'', Some ''creator''}"
    and "invite_lookup w (H link) = Some l" and "invite_requests w (lk_requestId l) = Some d"
    and "\<not> joinEventFired d" and "join_event_ok e1"
  shows "fst (telegram_webhook H e1 b w) = Send 200 ''ok''
    \<and> events (snd (telegram_webhook H e1 b w)) = events w @
         [\<lparr>ev_userId = js_string (userId d), ev_name = ''pass_paid_community_telegram_joined'',
               ev_data = [(''transactionId'', transactionId d), (''inviteLink'', JStr link),
                          (''telegramUserId'', JStr (show_int uid))]\<rparr>]
    \<and> map_option joinEventFired (invite_requests (snd (telegram_webhook H e1 b w)) (lk_requestId l))
        = Some True
    \<and> telegram_webhook H e2 b (snd (telegram_webhook H e1 b w)) =
        (Send 200 ''ok'', snd (telegram_webhook H e1 b w))"
proof -
  have r: "recognized_status (upd_status u)"
    using assms(6) by (auto simp add: recognized_status_def)
  let ?w1 = "snd (telegram_webhook H e1 b w)"
  let ?d1 = "d\<lparr>joinEventFired := join_event_ok e1, joinedAt := Some (now_joined e1),
                  telegramUserId := Some uid, updatedAt := now_join_updated e1\<rparr>"
  note first = webhook_valid [where H = H and e = e1, OF assms(1-5) r assms(7,8)]
  have l1: "invite_lookup ?w1 (H link) = Some l"
    using assms(7,9) by (simp add: first)
  have d1: "invite_requests ?w1 (lk_requestId l) = Some ?d1"
    using assms(9) by (simp add: first)
  have second: "telegram_webhook H e2 b ?w1 = (Send 200 ''ok'', ?w1)"
    using webhook_valid [where H = H and e = e2, OF assms(1-5) r l1 d1] assms(10) by simp
  show ?thesis
    using assms(9,10) second by (simp add: first)
qed

theorem C5_idempotent_redemption_witness:
  "invite_lookup ex_done (ex_fingerprint ''X'') = Some ex_entry
   \<and> invite_requests ex_done (lk_requestId ex_entry) = Some ex_done_doc
   \<and> \<not> joinEventFired ex_done_doc \<and> join_event_ok (ex_webhook_env True)
   \<and> events (snd (telegram_webhook ex_fingerprint (ex_webhook_env True)
                    (ex_join ''X'' ''member'' 99) ex_done)) =
       events ex_done @
         [\<lparr>ev_userId = ''u1'', ev_name = ''pass_paid_community_telegram_joined'',
           ev_data = [(''transactionId'', JStr ''txn1''), (''inviteLink'', JStr ''X''),
                      (''telegramUserId'', JStr ''99'')]\<rparr>]
   \<and> telegram_webhook ex_fingerprint (ex_webhook_env True) (ex_join ''X'' ''member'' 99)
        (snd (telegram_webhook ex_fingerprint (ex_webhook_env True)
                (ex_join ''X'' ''member'' 99) ex_done)) =
       (Send 200 ''ok'',
        snd (telegram_webhook ex_fingerprint (ex_webhook_env True)
               (ex_join ''X'' ''member'' 99) ex_done))"
proof -
  let ?u = "\<lparr>upd_invite_link = Some ''X'', upd_status = Some ''member'', upd_user_id = Some 99\<rparr>"
  have h1: "webhook_upd (ex_join ''X'' ''member'' 99) = Some ?u" by (rule ex_join_upd)
  have h2: "upd_invite_link ?u = Some ''X''" and h3: "''X'' \<noteq> []"
    and h4: "upd_user_id ?u = Some 99" and h5: "(99::int) \<noteq> 0"
    and h6: "upd_status ?u \<in> {Some ''member'', Some ''administrator'', Some ''creator''}"
    by simp_all
  have h7: "invite_lookup ex_done (ex_fingerprint ''X'') = Some ex_entry"
    by (simp add: ex_done_fields)
  have h8: "invite_requests ex_done (lk_requestId ex_entry) = Some ex_done_doc"
    by (simp add: ex_done_fields ex_entry_def)
  have h9: "\<not> joinEventFired ex_done_doc" by (simp add: ex_done_doc_def)
  have h10: "join_event_ok (ex_webhook_env True)" by (simp add: ex_webhook_env_def)
  from C5_idempotent_redemption [where H = ex_fingerprint and ?e2.0 = "ex_webhook_env True",
      OF h1 h2 h3 h4 h5 h6 h7 h8 h9 h10] h7 h8 h9 h10
  show ?thesis by (simp add: ex_done_doc_def show_int_def decimal.simps)
qed

section \<open>The attempt ceiling\<close>

text \<open>
  Claim C1, as the code has it. A fresh request whose worker steps all get a non-ok
  answer from Telegram stays \<open>QUEUED\<close> through the first \<open>MAX_ATTEMPTS\<close> steps,
  with \<open>attempts\<close> equal to the number of steps, one call to Telegram and one retry
  task per step. The
  step after those, number \<open>MAX_ATTEMPTS + 1\<close>, computes
  \<open>attempts + 1 > MAX_ATTEMPTS\<close> and stores \<open>FAILED\<close>; from then on the status
  stays \<open>FAILED\<close>, the counter stays at \<open>MAX_ATTEMPTS\<close>, Telegram is not called and
  no task is added.
\<close>

theorem C1_attempt_ceiling:
  assumes "invite_requests w rid = Some d" and "rid \<noteq> []"
    and "status d = QUEUED" and "attempts d = 0"
    and "\<forall>e \<in> set es. \<not> tg_ok (tg e)"
  shows "map_option status (invite_requests (steps H rid es w) rid) =
           Some (if int (length es) \<le> MAX_ATTEMPTS then QUEUED else FAILED)
    \<and> map_option attempts (invite_requests (steps H rid es w) rid) =
           Some (min (int (length es)) MAX_ATTEMPTS)
    \<and> length (tasks (steps H rid es w)) = length (tasks w) + min (length es) (nat MAX_ATTEMPTS)
    \<and> length (tg_calls (steps H rid es w)) =
         length (tg_calls w) + min (length es) (nat MAX_ATTEMPTS)"
  using steps_limited_fresh [OF assms(2,5,1,3,4), of H] by auto

theorem C1_attempt_ceiling_witness:
  "invite_requests ex_queued ''r1'' = Some ex_doc \<and> status ex_doc = QUEUED \<and> attempts ex_doc = 0
   \<and> map_option status
        (invite_requests (steps ex_fingerprint ''r1'' (replicate 51 ex_env_limited) ex_queued) ''r1'')
       = Some FAILED
   \<and> map_option attempts
        (invite_requests (steps ex_fingerprint ''r1'' (replicate 51 ex_env_limited) ex_queued) ''r1'')
       = Some 50
   \<and> length (tasks (steps ex_fingerprint ''r1'' (replicate 51 ex_env_limited) ex_queued)) = 51
   \<and> length (tg_calls (steps ex_fingerprint ''r1'' (replicate 51 ex_env_limited) ex_queued)) = 50"
proof -
  have h2: "''r1'' \<noteq> []" by simp
  have h3: "status ex_doc = QUEUED" and h4: "attempts ex_doc = 0" by (simp_all add: ex_doc_fields)
  from C1_attempt_ceiling [where H = ex_fingerprint, OF ex_queued_r1 h2 h3 h4 ex_limited_all [of 51]]
    ex_queued_r1 h3 h4
  show ?thesis by (simp add: MAX_ATTEMPTS_def ex_queued_fields)
qed

text \<open>
  Claim C1 as stated says \<open>FAILED\<close> is reached after exactly \<open>MAX_ATTEMPTS = 50\<close>
  worker steps. After fifty rate-limited steps the request is still \<open>QUEUED\<close>.
\<close>

theorem C1_attempt_ceiling_counterexample:
  "map_option status
     (invite_requests (steps ex_fingerprint ''r1'' (replicate 50 ex_env_limited) ex_queued) ''r1'')
   = Some QUEUED"
  using ex_ceiling_doc by (auto simp add: ex_ceiling_def)

section \<open>Terminal states\<close>

text \<open>
  Claim C2. Once a request is \<open>DONE\<close>, worker steps for it change nothing at all
  (so no lookup entry is written), and no sequence of worker calls, for whatever request
  ids and with whatever answers of the collaborators, changes its document. Once a request
  is \<open>FAILED\<close> in a state the handlers have produced from the empty store, every
  sequence of worker calls leaves it \<open>FAILED\<close>: the worker has no test for
  \<open>FAILED\<close>, it is the counter, already at the ceiling, that sends every later step
  into the \<open>FAILED\<close> branch again.
\<close>

theorem C2_terminal_states:
  assumes "invite_requests w rid = Some d"
  shows "(status d = DONE \<longrightarrow>
            steps H rid es w = w
            \<and> invite_requests (run H (worker_calls ws) w) rid = Some d)
    \<and> (status d = FAILED \<and> w = run H cs empty_world \<longrightarrow>
            map_option status (invite_requests (run H (worker_calls ws) w) rid) = Some FAILED)"
proof (intro conjI impI)
  assume "status d = DONE"
  then show "steps H rid es w = w" using assms by (simp add: steps_done)
next
  assume "status d = DONE"
  then show "invite_requests (run H (worker_calls ws) w) rid = Some d"
    using assms by (simp add: run_workers_keep_done)
next
  assume a: "status d = FAILED \<and> w = run H cs empty_world"
  then have "doc_ok d" using assms reachable_doc_ok by blast
  then have "MAX_ATTEMPTS \<le> attempts d" using a by (simp add: doc_ok_def)
  from run_workers_keep_failed [OF assms _ this, of H ws] a
  show "map_option status (invite_requests (run H (worker_calls ws) w) rid) = Some FAILED"
    by auto
qed

theorem C2_terminal_states_witness:
  "invite_requests ex_done ''r1'' = Some ex_done_doc \<and> status ex_done_doc = DONE
   \<and> steps ex_fingerprint ''r1'' [ex_env_issued, ex_env_limited] ex_done = ex_done
   \<and> map_option status (invite_requests ex_failed ''r1'') = Some FAILED
   \<and> map_option status
        (invite_requests
           (run ex_fingerprint
              (worker_calls
                 [(ex_env_issued, \<lparr>has_queue_header = True, body_requestId = Some ''r1''\<rparr>)])
              ex_failed) ''r1'')
       = Some FAILED"
proof -
  have d1: "invite_requests ex_done ''r1'' = Some ex_done_doc" by (simp add: ex_done_fields)
  have s1: "status ex_done_doc = DONE" by (simp add: ex_done_doc_def)
  obtain d where d2: "invite_requests ex_failed ''r1'' = Some d" and s2: "status d = FAILED"
    using ex_failed_doc by auto
  have r: "ex_failed =
     run ex_fingerprint
       (CallRequest ex_request_env ex_body # step_calls ''r1'' (replicate 51 ex_env_limited))
       empty_world"
    by (simp add: ex_failed_def)
  from C2_terminal_states [where H = ex_fingerprint and es = "[ex_env_issued, ex_env_limited]"
      and ws = "[]" and cs = "[]", OF d1]
    C2_terminal_states [where H = ex_fingerprint and es = "[]"
      and ws = "[(ex_env_issued, \<lparr>has_queue_header = True, body_requestId = Some ''r1''\<rparr>)]"
      and cs = "CallRequest ex_request_env ex_body # step_calls ''r1'' (replicate 51 ex_env_limited)",
      OF d2]
    d1 s1 d2 s2 r
  show ?thesis by simp
qed

text \<open>
  Claim C10. In every state the handlers produce from the empty store, whatever the
  sequence of calls and the answers of the collaborators, every stored request has
  \<open>attempts \<le> MAX_ATTEMPTS\<close>. The step that finds \<open>attempts + 1 > MAX_ATTEMPTS\<close>
  makes a single update with the fields \<^verbatim>\<open>status\<close> and \<^verbatim>\<open>updatedAt\<close> only, so the
  incremented counter is not stored.
\<close>

theorem C10_attempts_bounded:
  "(\<forall>k d. invite_requests (run H cs empty_world) k = Some d \<longrightarrow> attempts d \<le> MAX_ATTEMPTS)
   \<and> (\<forall>w rid d e. invite_requests w rid = Some d \<and> rid \<noteq> [] \<and> status d \<noteq> DONE
          \<and> MAX_ATTEMPTS < attempts d + 1 \<longrightarrow>
        writes (step H rid e w) =
          writes w @ [ReqUpdate rid [Status FAILED, UpdatedAt (now_failed e)]]
        \<and> invite_requests (step H rid e w) =
            (invite_requests w)(rid \<mapsto> d\<lparr>status := FAILED, updatedAt := now_failed e\<rparr>))"
proof (intro conjI allI impI)
  fix k :: string and d :: request
  assume "invite_requests (run H cs empty_world) k = Some d"
  then have "doc_ok d" by (rule reachable_doc_ok)
  then show "attempts d \<le> MAX_ATTEMPTS" by (simp add: doc_ok_def)
next
  fix w :: world and rid :: string and d :: request and e :: worker_env
  assume a: "invite_requests w rid = Some d \<and> rid \<noteq> [] \<and> status d \<noteq> DONE
          \<and> MAX_ATTEMPTS < attempts d + 1"
  then show "writes (step H rid e w) =
          writes w @ [ReqUpdate rid [Status FAILED, UpdatedAt (now_failed e)]]"
    by (simp add: step_failed)
  from a show "invite_requests (step H rid e w) =
            (invite_requests w)(rid \<mapsto> d\<lparr>status := FAILED, updatedAt := now_failed e\<rparr>)"
    by (simp add: step_failed)
qed

theorem C10_attempts_bounded_witness:
  "map_option attempts (invite_requests ex_failed ''r1'') = Some 50
   \<and> (50::int) \<le> MAX_ATTEMPTS
   \<and> map_option attempts (invite_requests ex_ceiling ''r1'') = Some 50
   \<and> writes (step ex_fingerprint ''r1'' ex_env_limited ex_ceiling) =
       writes ex_ceiling @ [ReqUpdate ''r1'' [Status FAILED, UpdatedAt ''T1'']]
   \<and> map_option attempts
        (invite_requests (step ex_fingerprint ''r1'' ex_env_limited ex_ceiling) ''r1'') = Some 50"
proof -
  obtain d where d: "invite_requests ex_failed ''r1'' = Some d" and a: "attempts d = 50"
    using ex_failed_doc by auto
  obtain c where c: "invite_requests ex_ceiling ''r1'' = Some c" and sc: "status c = QUEUED"
    and ac: "attempts c = 50"
    using ex_ceiling_doc by auto
  have t: "now_failed ex_env_limited = ''T1''" by (simp add: ex_env_limited_def)
  note main = C10_attempts_bounded [of ex_fingerprint
      "CallRequest ex_request_env ex_body # step_calls ''r1'' (replicate 51 ex_env_limited)"]
  have "attempts d \<le> MAX_ATTEMPTS"
    using main d by (auto simp add: ex_failed_def)
  moreover have "writes (step ex_fingerprint ''r1'' ex_env_limited ex_ceiling) =
       writes ex_ceiling @ [ReqUpdate ''r1'' [Status FAILED, UpdatedAt (now_failed ex_env_limited)]]
     \<and> invite_requests (step ex_fingerprint ''r1'' ex_env_limited ex_ceiling) =
         (invite_requests ex_ceiling)
           (''r1'' \<mapsto> c\<lparr>status := FAILED, updatedAt := now_failed ex_env_limited\<rparr>)"
    using main [THEN conjunct2, rule_format, of ex_ceiling "''r1''" c ex_env_limited] c sc ac
    by (simp add: MAX_ATTEMPTS_def)
  ultimately show ?thesis using d a c ac t by simp
qed

section \<open>The modification time\<close>

text \<open>
  Claim C3 says every mutation of a request refreshes \<^verbatim>\<open>updatedAt\<close>, the revert to
  \<open>QUEUED\<close> included. On scenario B the worker makes two updates: the first carries
  \<^verbatim>\<open>updatedAt\<close>, the revert \<^verbatim>\<open>update({status: "QUEUED"})\<close> does not, and the stored
  time afterwards is the one read before the Telegram call.
\<close>

theorem C3_revert_without_updatedAt:
  "writes (step ex_fingerprint ''r1'' ex_env_limited ex_queued) =
     [ReqSet ''r1'' ex_doc,
      ReqUpdate ''r1'' [Status PROCESSING, Attempts 1, UpdatedAt ''T1''],
      ReqUpdate ''r1'' [Status QUEUED]]
   \<and> \<not> refreshes_updatedAt (last (writes (step ex_fingerprint ''r1'' ex_env_limited ex_queued)))
   \<and> map_option status (invite_requests (step ex_fingerprint ''r1'' ex_env_limited ex_queued) ''r1'')
       = Some QUEUED
   \<and> map_option updatedAt (invite_requests (step ex_fingerprint ''r1'' ex_env_limited ex_queued) ''r1'')
       = Some (now_processing ex_env_limited)"
proof -
  have h2: "''r1'' \<noteq> []" by simp
  have h3: "status ex_doc \<noteq> DONE" by (simp add: ex_doc_fields)
  have h4: "attempts ex_doc + 1 \<le> MAX_ATTEMPTS" by (simp add: ex_doc_fields MAX_ATTEMPTS_def)
  have h5: "\<not> tg_ok (tg ex_env_limited)" by (simp add: ex_env_limited_def)
  have t: "now_processing ex_env_limited = ''T1''" by (simp add: ex_env_limited_def)
  note s = step_limited [OF ex_queued_r1 h2 h3 h4 h5, of ex_fingerprint]
  show ?thesis
    by (simp add: s ex_queued_fields ex_doc_fields t)
qed

section \<open>The redeemer identifier\<close>

text \<open>
  Claim C9, as the code has it. The latch is \<^verbatim>\<open>joinEventFired\<close>: once it is true, no
  sequence of webhook calls changes the request, its \<^verbatim>\<open>telegramUserId\<close> included. While
  it is false, each valid signal for the request's link stores its own user id and sets
  the flag to the success of the WebEngage call.
\<close>

theorem C9_redeemer_latched:
  assumes "invite_requests w rid = Some d"
  shows "(joinEventFired d \<longrightarrow> invite_requests (run H (webhook_calls sigs) w) rid = Some d)
    \<and> (\<not> joinEventFired d \<and> webhook_upd b = Some u
         \<and> upd_invite_link u = Some link \<and> link \<noteq> []
         \<and> upd_user_id u = Some uid \<and> uid \<noteq> 0
         \<and> upd_status u \<in> {Some ''member'', Some ''administrator'', Some ''creator''}
         \<and> invite_lookup w (H link) = Some l \<and> lk_requestId l = rid \<longrightarrow>
        map_option telegramUserId (invite_requests (snd (telegram_webhook H e b w)) rid) =
          Some (Some uid)
        \<and> map_option joinEventFired (invite_requests (snd (telegram_webhook H e b w)) rid) =
          Some (join_event_ok e))"
proof (intro conjI impI)
  assume "joinEventFired d"
  with assms show "invite_requests (run H (webhook_calls sigs) w) rid = Some d"
    by (rule run_webhooks_keep_joined)
next
  assume a: "\<not> joinEventFired d \<and> webhook_upd b = Some u
         \<and> upd_invite_link u = Some link \<and> link \<noteq> []
         \<and> upd_user_id u = Some uid \<and> uid \<noteq> 0
         \<and> upd_status u \<in> {Some ''member'', Some ''administrator'', Some ''creator''}
         \<and> invite_lookup w (H link) = Some l \<and> lk_requestId l = rid"
  then have r: "recognized_status (upd_status u)" by (auto simp add: recognized_status_def)
  have d: "invite_requests w (lk_requestId l) = Some d" using a assms by simp
  have v: "telegram_webhook H e b w =
     (Send 200 ''ok'',
        w\<lparr>events := events w @
             [\<lparr>ev_userId = js_string (userId d), ev_name = ''pass_paid_community_telegram_joined'',
               ev_data = [(''transactionId'', transactionId d), (''inviteLink'', JStr link),
                          (''telegramUserId'', JStr (show_int uid))]\<rparr>],
          invite_requests := (invite_requests w)
             (lk_requestId l \<mapsto> d\<lparr>joinEventFired := join_event_ok e, joinedAt := Some (now_joined e),
                  telegramUserId := Some uid, updatedAt := now_join_updated e\<rparr>),
          writes := writes w @
             [ReqUpdate (lk_requestId l)
                [JoinEventFired (join_event_ok e), JoinedAt (now_joined e),
                 TelegramUserId uid, UpdatedAt (now_join_updated e)]]\<rparr>)"
    using webhook_valid [where H = H and e = e and b = b and u = u and link = link and uid = uid
        and l = l and d = d and w = w] a r d by simp
  from a show "map_option telegramUserId (invite_requests (snd (telegram_webhook H e b w)) rid) =
          Some (Some uid)"
    by (simp add: v)
  from a show "map_option joinEventFired (invite_requests (snd (telegram_webhook H e b w)) rid) =
          Some (join_event_ok e)"
    by (simp add: v)
qed

theorem C9_redeemer_latched_witness:
  "map_option joinEventFired (invite_requests ex_joined ''r1'') = Some True
   \<and> map_option telegramUserId (invite_requests ex_joined ''r1'') = Some (Some 99)
   \<and> map_option telegramUserId
        (invite_requests
           (run ex_fingerprint
              (webhook_calls [(ex_webhook_env True, ex_join ''X'' ''member'' 100)]) ex_joined)
           ''r1'')
       = Some (Some 99)"
proof -
  let ?d = "ex_done_doc\<lparr>joinEventFired := True, joinedAt := Some ''T5'',
                        telegramUserId := Some 99, updatedAt := ''T5''\<rparr>"
  have d: "invite_requests ex_joined ''r1'' = Some ?d" by (simp add: ex_joined_fields)
  have j: "joinEventFired ?d" by simp
  from C9_redeemer_latched [where H = ex_fingerprint
      and sigs = "[(ex_webhook_env True, ex_join ''X'' ''member'' 100)]", OF d] d j
  show ?thesis by simp
qed

text \<open>
  Claim C9 as stated says a recorded redeemer is never replaced by a different one. When
  WebEngage refuses the event of the first signal (user 99), the user id is stored with
  the flag still false, and a second signal on the same link (user 100) replaces it.
\<close>

theorem C9_redeemer_overwritten_counterexample:
  "map_option telegramUserId (invite_requests ex_join_unsent ''r1'') = Some (Some 99)
   \<and> map_option telegramUserId (invite_requests ex_join_second ''r1'') = Some (Some 100)"
proof -
  let ?d = "ex_done_doc\<lparr>joinEventFired := False, joinedAt := Some ''T5'',
                        telegramUserId := Some 99, updatedAt := ''T5''\<rparr>"
  have l: "invite_lookup ex_join_unsent (ex_fingerprint ''X'') = Some ex_entry"
    and d: "invite_requests ex_join_unsent ''r1'' = Some ?d"
    and j: "\<not> joinEventFired ?d"
    by (simp_all add: ex_join_unsent_fields)
  note v = ex_valid_join [OF l d j, of 100 "ex_webhook_env True"]
  show ?thesis
    by (simp add: ex_join_second_def v) (simp add: ex_join_unsent_fields)
qed

end
